theory Spec2Isabelle
  imports Main
begin

section \<open>The Anthropic adapter of chatlas: data model\<close>

text \<open>
  A shallow embedding of \<^verbatim>\<open>src/chatlas/_anthropic.py\<close> (class \<^verbatim>\<open>AnthropicProvider\<close>).
  Python values that the adapter only passes around (tool arguments, tool inputs, JSON
  schemas) are JSON values. A Python \<^verbatim>\<open>str\<close> is \<open>JStr\<close> and a Python \<^verbatim>\<open>dict\<close> is
  \<open>JDict\<close>, an association list in insertion order, so that \<^verbatim>\<open>isinstance(x, str)\<close> and
  \<^verbatim>\<open>isinstance(x, dict)\<close> are tests on the constructor. Floating-point numbers do not
  occur in what is verified here and are left out.
\<close>

datatype json =
    JNull
  | JBool bool
  | JInt int
  | JStr string
  | JList "json list"
  | JDict "(string \<times> json) list"

text \<open>Every exception the adapter raises, or lets Python raise, is a value.\<close>

datatype error =
    ValueError string
  | NotImplementedError string
  | AttributeError
  | IndexError
  | KeyError string

text \<open>
  The canonical content kinds of \<^verbatim>\<open>_content.py\<close>, with the attributes the adapter reads:
  \<^verbatim>\<open>ContentText.text\<close>; \<^verbatim>\<open>ContentImageInline.content_type\<close> and \<^verbatim>\<open>.data\<close> (optional);
  \<^verbatim>\<open>ContentImageRemote.url\<close>; \<^verbatim>\<open>ContentJson.value\<close>; \<^verbatim>\<open>ContentToolRequest.id\<close>,
  \<^verbatim>\<open>.name\<close>, \<^verbatim>\<open>.arguments\<close>; \<^verbatim>\<open>ContentToolResult.id\<close>, \<^verbatim>\<open>.value\<close>, \<^verbatim>\<open>.error\<close> (optional).
\<close>

datatype content =
    ContentText string
  | ContentImageInline string "string option"
  | ContentImageRemote string
  | ContentJson json
  | ContentToolRequest string string json
  | ContentToolResult string json "string option"

text \<open>
  A vendor content block. The adapter writes blocks as dictionaries with a \<^verbatim>\<open>type\<close> entry
  (\<^verbatim>\<open>_as_content_block\<close>) and reads the blocks of a completion by their \<^verbatim>\<open>type\<close> attribute
  (\<^verbatim>\<open>_as_turn\<close>, \<^verbatim>\<open>stream_merge_chunks\<close>); both are the same wire shape, one constructor
  for each \<^verbatim>\<open>type\<close>:
  \<^item> \<open>TextBlock text\<close> is \<^verbatim>\<open>{type: text, text}\<close>;
  \<^item> \<open>ImageBlock media_type data\<close> is \<^verbatim>\<open>{type: image, source: {type: base64, media_type, data}}\<close>;
  \<^item> \<open>ToolUseBlock id name input\<close> is \<^verbatim>\<open>{type: tool_use, id, name, input}\<close>;
  \<^item> \<open>ToolResultBlock tool_use_id content is_error\<close> is
    \<^verbatim>\<open>{type: tool_result, tool_use_id, content, is_error}\<close>.
\<close>

datatype block =
    TextBlock string
  | ImageBlock string string
  | ToolUseBlock string string json
  | ToolResultBlock string string bool

fun block_type :: "block \<Rightarrow> string" where
  "block_type (TextBlock _) = ''text''"
| "block_type (ImageBlock _ _) = ''image''"
| "block_type (ToolUseBlock _ _ _) = ''tool_use''"
| "block_type (ToolResultBlock _ _ _) = ''tool_result''"

text \<open>The vendor completion \<^verbatim>\<open>Message\<close> and its \<^verbatim>\<open>usage\<close>.\<close>

record usage =
  input_tokens :: int
  output_tokens :: int

record message =
  msg_id :: string
  model :: string
  content :: "block list"
  stop_reason :: "string option"
  stop_sequence :: "string option"
  usage :: usage

text \<open>
  The canonical \<^verbatim>\<open>Turn\<close>: role, contents, the raw completion (\<^verbatim>\<open>json\<close>) and the token
  pair, the last two absent on turns that did not come from a completion.
\<close>

record turn =
  role :: string
  contents :: "content list"
  json :: "message option"
  tokens :: "(int \<times> int) option"

section \<open>Canonical content to vendor blocks\<close>

text \<open>
  \<^verbatim>\<open>_as_content_block\<close>. \<^verbatim>\<open>ContentToolResult.get_final_value\<close> lives in \<^verbatim>\<open>_content.py\<close>; it
  is the parameter \<open>get_final_value\<close>, applied to the item's value and error.
\<close>

fun as_content_block :: "(json \<Rightarrow> string option \<Rightarrow> string) \<Rightarrow> content \<Rightarrow> error + block" where
  "as_content_block get_final_value (ContentText text) = Inr (TextBlock text)"
| "as_content_block get_final_value (ContentJson v) = Inr (TextBlock ''<structured data/>'')"
| "as_content_block get_final_value (ContentImageInline content_type data) =
     Inr (ImageBlock content_type (case data of None \<Rightarrow> '''' | Some d \<Rightarrow> d))"
| "as_content_block get_final_value (ContentImageRemote url) =
     Inl (NotImplementedError ''Remote images aren't supported by Anthropic (Claude).'')"
| "as_content_block get_final_value (ContentToolRequest cid name arguments) =
     Inr (ToolUseBlock cid name arguments)"
| "as_content_block get_final_value (ContentToolResult cid v err) =
     Inr (ToolResultBlock cid (get_final_value v err) (err \<noteq> None))"

text \<open>
  The list comprehension \<^verbatim>\<open>[self._as_content_block(c) for c in turn.contents]\<close>: the first
  item that raises ends it.
\<close>

fun as_content_blocks :: "(json \<Rightarrow> string option \<Rightarrow> string) \<Rightarrow> content list \<Rightarrow> error + block list" where
  "as_content_blocks get_final_value [] = Inr []"
| "as_content_blocks get_final_value (c # cs) =
     (case as_content_block get_final_value c of
        Inl e \<Rightarrow> Inl e
      | Inr b \<Rightarrow>
          (case as_content_blocks get_final_value cs of
             Inl e \<Rightarrow> Inl e
           | Inr bs \<Rightarrow> Inr (b # bs)))"

section \<open>Completion to canonical turn\<close>

text \<open>
  One pass of the loop of \<^verbatim>\<open>_as_turn\<close> over \<^verbatim>\<open>completion.content\<close>: the block is appended to
  the list \<^verbatim>\<open>contents\<close> (here \<open>acc\<close>) as a content item, skipped, or the call raises.
\<close>

definition as_turn_step :: "bool \<Rightarrow> content list \<Rightarrow> block \<Rightarrow> error + content list" where
  "as_turn_step has_data_model acc b =
     (if block_type b = ''text'' then
        (case b of TextBlock text \<Rightarrow> Inr (acc @ [ContentText text]) | _ \<Rightarrow> Inl AttributeError)
      else if block_type b = ''tool_use'' then
        (case b of
           ToolUseBlock bid name inp \<Rightarrow>
             (if has_data_model \<and> name = ''_structured_tool_call'' then
                (case inp of
                   JDict d \<Rightarrow>
                     (case map_of d ''data'' of
                        None \<Rightarrow> Inl (ValueError ''Expected data extraction tool to return a 'data' field.'')
                      | Some v \<Rightarrow> Inr (acc @ [ContentJson v]))
                 | _ \<Rightarrow> Inl (ValueError ''Expected data extraction tool to return a dictionary.''))
              else Inr (acc @ [ContentToolRequest bid name inp]))
         | _ \<Rightarrow> Inl AttributeError)
      else Inr acc)"

fun as_turn_loop :: "bool \<Rightarrow> content list \<Rightarrow> block list \<Rightarrow> error + content list" where
  "as_turn_loop has_data_model acc [] = Inr acc"
| "as_turn_loop has_data_model acc (b # bs) =
     (case as_turn_step has_data_model acc b of
        Inl e \<Rightarrow> Inl e
      | Inr acc' \<Rightarrow> as_turn_loop has_data_model acc' bs)"

text \<open>
  \<^verbatim>\<open>_as_turn\<close>. \<^verbatim>\<open>tokens_log\<close> only records the pair and is not modelled; the turn keeps the
  raw completion, which stands for \<^verbatim>\<open>completion.model_dump()\<close>.
\<close>

definition as_turn :: "message \<Rightarrow> bool \<Rightarrow> error + turn" where
  "as_turn completion has_data_model =
     (case as_turn_loop has_data_model [] (content completion) of
        Inl e \<Rightarrow> Inl e
      | Inr cs \<Rightarrow>
          Inr \<lparr>role = ''assistant'', contents = cs, json = Some completion,
               tokens = Some (input_tokens (usage completion), output_tokens (usage completion))\<rparr>)"

definition stream_turn :: "message \<Rightarrow> bool \<Rightarrow> error + turn" where
  "stream_turn completion has_data_model = as_turn completion has_data_model"

definition value_turn :: "message \<Rightarrow> bool \<Rightarrow> error + turn" where
  "value_turn completion has_data_model = as_turn completion has_data_model"

section \<open>Merging streamed chunks\<close>

text \<open>
  The stream events (\<^verbatim>\<open>RawMessageStreamEvent\<close>) by their \<^verbatim>\<open>type\<close>, with the attributes
  \<^verbatim>\<open>stream_merge_chunks\<close> reads: \<^verbatim>\<open>message\<close>; \<^verbatim>\<open>index\<close> and \<^verbatim>\<open>content_block\<close>; \<^verbatim>\<open>index\<close> and
  \<^verbatim>\<open>delta\<close>; \<^verbatim>\<open>index\<close>; \<^verbatim>\<open>delta.stop_reason\<close>, \<^verbatim>\<open>delta.stop_sequence\<close> and
  \<^verbatim>\<open>usage.output_tokens\<close>. A delta is a \<^verbatim>\<open>text_delta\<close> or an \<^verbatim>\<open>input_json_delta\<close>.
\<close>

datatype delta =
    TextDelta string
  | InputJsonDelta string

datatype chunk =
    MessageStart message
  | ContentBlockStart int block
  | ContentBlockDelta int delta
  | ContentBlockStop int
  | MessageDelta "string option" "string option" int
  | MessageStop

text \<open>
  Python's \<^verbatim>\<open>xs[i]\<close>: a negative index counts from the end, and an index out of range
  raises \<^verbatim>\<open>IndexError\<close> (here \<open>None\<close>). The result is the position read.
\<close>

definition py_index :: "'a list \<Rightarrow> int \<Rightarrow> nat option" where
  "py_index xs i =
     (if 0 \<le> i \<and> i < int (length xs) then Some (nat i)
      else if i < 0 \<and> - int (length xs) \<le> i then Some (nat (int (length xs) + i))
      else None)"

text \<open>
  The two delta branches of \<^verbatim>\<open>content_block_delta\<close>, on the block read at the chunk's
  index. A block without the attribute that the branch reads (\<^verbatim>\<open>text\<close>, \<^verbatim>\<open>input\<close>) raises
  \<^verbatim>\<open>AttributeError\<close>.
\<close>

fun merge_delta :: "block \<Rightarrow> delta \<Rightarrow> error + block" where
  "merge_delta (TextBlock text) (TextDelta t) = Inr (TextBlock (text @ t))"
| "merge_delta _ (TextDelta t) = Inl AttributeError"
| "merge_delta (ToolUseBlock bid name inp) (InputJsonDelta partial_json) =
     Inr (ToolUseBlock bid name
       (JStr ((case inp of JStr s \<Rightarrow> s | _ \<Rightarrow> []) @ partial_json)))"
| "merge_delta _ (InputJsonDelta partial_json) = Inl AttributeError"

text \<open>
  The \<^verbatim>\<open>content_block_stop\<close> branch on the block read at the chunk's index.
  \<^verbatim>\<open>json.loads\<close> is the parameter \<open>loads\<close>, \<open>None\<close> when it raises \<^verbatim>\<open>JSONDecodeError\<close>;
  the decoder's message, which the source appends to the error text, is left out.
\<close>

definition merge_stop :: "(string \<Rightarrow> json option) \<Rightarrow> block \<Rightarrow> error + block" where
  "merge_stop loads this_content =
     (case this_content of
        ToolUseBlock bid name (JStr s) \<Rightarrow>
          (case loads (if s = [] then ''{}'' else s) of
             None \<Rightarrow> Inl (ValueError ''Invalid JSON input'')
           | Some v \<Rightarrow> Inr (ToolUseBlock bid name v))
      | _ \<Rightarrow> Inr this_content)"

text \<open>
  \<^verbatim>\<open>stream_merge_chunks\<close>. The accumulator is \<open>None\<close> before the first chunk; reading an
  attribute of \<^verbatim>\<open>None\<close> raises \<^verbatim>\<open>AttributeError\<close>. The source updates the completion in
  place and returns it; here the updated completion is returned.
\<close>

fun stream_merge_chunks ::
  "(string \<Rightarrow> json option) \<Rightarrow> message option \<Rightarrow> chunk \<Rightarrow> error + message option" where
  "stream_merge_chunks loads completion (MessageStart m) = Inr (Some m)"
| "stream_merge_chunks loads None (ContentBlockStart i content_block) = Inl AttributeError"
| "stream_merge_chunks loads (Some c) (ContentBlockStart i content_block) =
     Inr (Some (c\<lparr>content := content c @ [content_block]\<rparr>))"
| "stream_merge_chunks loads None (ContentBlockDelta i d) = Inl AttributeError"
| "stream_merge_chunks loads (Some c) (ContentBlockDelta i d) =
     (case py_index (content c) i of
        None \<Rightarrow> Inl IndexError
      | Some k \<Rightarrow>
          (case merge_delta (content c ! k) d of
             Inl e \<Rightarrow> Inl e
           | Inr b \<Rightarrow> Inr (Some (c\<lparr>content := (content c)[k := b]\<rparr>))))"
| "stream_merge_chunks loads None (ContentBlockStop i) = Inl AttributeError"
| "stream_merge_chunks loads (Some c) (ContentBlockStop i) =
     (case py_index (content c) i of
        None \<Rightarrow> Inl IndexError
      | Some k \<Rightarrow>
          (case merge_stop loads (content c ! k) of
             Inl e \<Rightarrow> Inl e
           | Inr b \<Rightarrow> Inr (Some (c\<lparr>content := (content c)[k := b]\<rparr>))))"
| "stream_merge_chunks loads None (MessageDelta sr ss ot) = Inl AttributeError"
| "stream_merge_chunks loads (Some c) (MessageDelta sr ss ot) =
     Inr (Some (c\<lparr>stop_reason := sr, stop_sequence := ss,
                  usage := (usage c)\<lparr>output_tokens := ot\<rparr>\<rparr>))"
| "stream_merge_chunks loads completion MessageStop = Inr completion"

text \<open>
  The caller's loop over the stream: the accumulator starts as given and every chunk is
  merged in arrival order; the first chunk that raises ends the loop.
\<close>

fun merge_all ::
  "(string \<Rightarrow> json option) \<Rightarrow> message option \<Rightarrow> chunk list \<Rightarrow> error + message option" where
  "merge_all loads completion [] = Inr completion"
| "merge_all loads completion (ch # chs) =
     (case stream_merge_chunks loads completion ch of
        Inl e \<Rightarrow> Inl e
      | Inr completion' \<Rightarrow> merge_all loads completion' chs)"

section \<open>Building the vendor request\<close>

text \<open>A vendor message (\<^verbatim>\<open>MessageParam\<close>): \<^verbatim>\<open>{role, content}\<close>.\<close>

record message_param =
  mp_role :: string
  mp_content :: "block list"

text \<open>
  The loop of \<^verbatim>\<open>_as_message_params\<close>, with the list \<^verbatim>\<open>messages\<close> built so far: a system turn
  is passed over, any role other than user and assistant raises, and the turn's contents
  are mapped before the message is appended.
\<close>

fun as_message_params_loop ::
  "(json \<Rightarrow> string option \<Rightarrow> string) \<Rightarrow> message_param list \<Rightarrow> turn list \<Rightarrow>
   error + message_param list" where
  "as_message_params_loop get_final_value messages [] = Inr messages"
| "as_message_params_loop get_final_value messages (t # ts) =
     (if role t = ''system'' then as_message_params_loop get_final_value messages ts
      else if role t \<notin> set [''user'', ''assistant''] then
        Inl (ValueError (''Unknown role '' @ role t))
      else
        (case as_content_blocks get_final_value (contents t) of
           Inl e \<Rightarrow> Inl e
         | Inr blocks \<Rightarrow>
             as_message_params_loop get_final_value
               (messages @
                [\<lparr>mp_role = (if role t = ''user'' then ''user'' else ''assistant''),
                  mp_content = blocks\<rparr>])
               ts))"

definition as_message_params ::
  "(json \<Rightarrow> string option \<Rightarrow> string) \<Rightarrow> turn list \<Rightarrow> error + message_param list" where
  "as_message_params get_final_value turns = as_message_params_loop get_final_value [] turns"

text \<open>
  A tool as the adapter reads it: its name and the \<^verbatim>\<open>function\<close> entry of its schema
  (\<^verbatim>\<open>ChatCompletionToolParam\<close>), a dictionary with \<^verbatim>\<open>name\<close> and the optional entries
  \<^verbatim>\<open>description\<close> and \<^verbatim>\<open>parameters\<close>. The vendor's \<^verbatim>\<open>ToolParam\<close> has \<^verbatim>\<open>name\<close>, \<^verbatim>\<open>input_schema\<close>
  (a dictionary) and the optional \<^verbatim>\<open>description\<close>.
\<close>

record function_schema =
  fn_name :: string
  fn_description :: "string option"
  fn_parameters :: "(string \<times> json) list option"

record tool =
  tool_name :: string
  tool_schema :: function_schema

record tool_param =
  tp_name :: string
  tp_input_schema :: "(string \<times> json) list"
  tp_description :: "string option"

text \<open>\<^verbatim>\<open>_anthropic_tool_schema\<close>; a \<^verbatim>\<open>parameters\<close> entry without \<^verbatim>\<open>properties\<close> raises \<^verbatim>\<open>KeyError\<close>.\<close>

definition anthropic_tool_schema :: "function_schema \<Rightarrow> error + tool_param" where
  "anthropic_tool_schema fn =
     (let res = \<lparr>tp_name = fn_name fn, tp_input_schema = [(''type'', JStr ''object'')],
                 tp_description = None\<rparr>;
          res = (case fn_description fn of
                   None \<Rightarrow> res
                 | Some d \<Rightarrow> res\<lparr>tp_description := Some d\<rparr>)
      in case fn_parameters fn of
           None \<Rightarrow> Inr res
         | Some ps \<Rightarrow>
             (case map_of ps ''properties'' of
                None \<Rightarrow> Inl (KeyError ''properties'')
              | Some props \<Rightarrow>
                  Inr (res\<lparr>tp_input_schema := tp_input_schema res @ [(''properties'', props)]\<rparr>)))"

fun anthropic_tool_schemas :: "tool list \<Rightarrow> error + tool_param list" where
  "anthropic_tool_schemas [] = Inr []"
| "anthropic_tool_schemas (t # ts) =
     (case anthropic_tool_schema (tool_schema t) of
        Inl e \<Rightarrow> Inl e
      | Inr s \<Rightarrow>
          (case anthropic_tool_schemas ts of
             Inl e \<Rightarrow> Inl e
           | Inr ss \<Rightarrow> Inr (s # ss)))"

text \<open>
  Modelled from the spec: the class \<^verbatim>\<open>Tool\<close> of \<^verbatim>\<open>_tools.py\<close> is not among the sources. The
  pseudo-tool is "named for a no-op extraction function", the local function
  \<^verbatim>\<open>_structured_tool_call\<close> whose docstring is its description, and its "single parameter
  data carries the schema-derived JSON schema of the desired output type": the
  \<^verbatim>\<open>parameters\<close> entry is the one the source assigns. The argument is the value of
  \<^verbatim>\<open>basemodel_to_param_schema(data_model)\<close>.
\<close>

definition structured_tool_call :: "json \<Rightarrow> tool" where
  "structured_tool_call param_schema =
     \<lparr>tool_name = ''_structured_tool_call'',
      tool_schema =
        \<lparr>fn_name = ''_structured_tool_call'',
         fn_description = Some ''Extract structured data'',
         fn_parameters =
           Some [(''type'', JStr ''object''),
                 (''properties'', JDict [(''data'', param_schema)])]\<rparr>\<rparr>"

text \<open>
  The values of the request dictionary (\<^verbatim>\<open>SubmitInputArgs\<close>): flags, numbers, strings, the
  message list, the tool list, a tool choice \<^verbatim>\<open>{type, name}\<close>, and any other value a
  caller passes.
\<close>

datatype arg =
    ABool bool
  | AInt int
  | AStr string
  | AMessages "message_param list"
  | ATools "tool_param list"
  | AToolChoice string string
  | AOther json

text \<open>The adapter's configuration: \<^verbatim>\<open>self._model\<close> and \<^verbatim>\<open>self._max_tokens\<close>.\<close>

record provider =
  self_model :: string
  self_max_tokens :: int

text \<open>The expression \<^verbatim>\<open>kwargs or {}\<close>.\<close>

definition kwargs_or_empty :: "(string \<rightharpoonup> arg) option \<Rightarrow> (string \<rightharpoonup> arg)" where
  "kwargs_or_empty kwargs = (case kwargs of None \<Rightarrow> Map.empty | Some kw \<Rightarrow> kw)"

text \<open>
  The assembly of the request at the end of \<^verbatim>\<open>_chat_perform_args\<close>: the derived entries,
  overwritten by the caller's \<^verbatim>\<open>kwargs\<close>; then the forced tool choice when there is a data
  model tool; then the system prompt of a leading system turn when no \<^verbatim>\<open>system\<close> entry is
  there yet. \<open>text_of\<close> is the attribute \<^verbatim>\<open>text\<close> of a \<^verbatim>\<open>Turn\<close> (\<^verbatim>\<open>_turn.py\<close>).
\<close>

definition request_args ::
  "provider \<Rightarrow> (turn \<Rightarrow> string) \<Rightarrow> bool \<Rightarrow> message_param list \<Rightarrow> tool_param list \<Rightarrow>
   tool option \<Rightarrow> turn list \<Rightarrow> (string \<rightharpoonup> arg) option \<Rightarrow> (string \<rightharpoonup> arg)" where
  "request_args self text_of stream messages tool_schemas data_model_tool turns kwargs =
     (let kwargs_full =
            [''stream'' \<mapsto> ABool stream,
             ''messages'' \<mapsto> AMessages messages,
             ''model'' \<mapsto> AStr (self_model self),
             ''max_tokens'' \<mapsto> AInt (self_max_tokens self),
             ''tools'' \<mapsto> ATools tool_schemas]
            ++ kwargs_or_empty kwargs;
          kwargs_full =
            (case data_model_tool of
               None \<Rightarrow> kwargs_full
             | Some t \<Rightarrow> kwargs_full(''tool_choice'' \<mapsto> AToolChoice ''tool'' (tool_name t)));
          kwargs_full =
            (if kwargs_full ''system'' = None then
               (if length turns > 0 \<and> role (turns ! 0) = ''system'' then
                  kwargs_full(''system'' \<mapsto> AStr (text_of (turns ! 0)))
                else kwargs_full)
             else kwargs_full)
      in kwargs_full)"

text \<open>
  \<^verbatim>\<open>_chat_perform_args\<close>. The result is the list of warnings issued (\<^verbatim>\<open>warnings.warn\<close>),
  and the request dictionary or the exception raised. \<open>data_model\<close> is \<open>None\<close> or the JSON
  schema that \<^verbatim>\<open>basemodel_to_param_schema\<close> derives from the data model; \<open>tools\<close> is the
  dictionary in insertion order; \<open>kwargs\<close> is \<open>None\<close> or the caller's dictionary of
  overrides.
\<close>

definition chat_perform_args ::
  "provider \<Rightarrow> (turn \<Rightarrow> string) \<Rightarrow> (json \<Rightarrow> string option \<Rightarrow> string) \<Rightarrow>
   bool \<Rightarrow> turn list \<Rightarrow> (string \<times> tool) list \<Rightarrow> json option \<Rightarrow>
   (string \<rightharpoonup> arg) option \<Rightarrow> string list \<times> (error + (string \<rightharpoonup> arg))" where
  "chat_perform_args self text_of get_final_value stream turns tools data_model kwargs =
     (case anthropic_tool_schemas (map snd tools) of
        Inl e \<Rightarrow> ([], Inl e)
      | Inr tool_schemas \<Rightarrow>
          (let data_model_tool = map_option structured_tool_call data_model
           in case (case data_model_tool of
                      None \<Rightarrow> Inr tool_schemas
                    | Some t \<Rightarrow>
                        (case anthropic_tool_schema (tool_schema t) of
                           Inl e \<Rightarrow> Inl e
                         | Inr s \<Rightarrow> Inr (tool_schemas @ [s]))) of
                Inl e \<Rightarrow> ([], Inl e)
              | Inr tool_schemas \<Rightarrow>
                  (let warned = (data_model \<noteq> None \<and> stream);
                       ws = (if warned then
                               [''Anthropic does not support structured data extraction in streaming mode.'']
                             else []);
                       stream = (if warned then False else stream)
                   in case as_message_params get_final_value turns of
                        Inl e \<Rightarrow> (ws, Inl e)
                      | Inr messages \<Rightarrow>
                          (ws, Inr (request_args self text_of stream messages tool_schemas
                                      data_model_tool turns kwargs)))))"

section \<open>A streamed completion\<close>

text \<open>
  The events of one streamed message in arrival order, as the merge expects them:
  \<^verbatim>\<open>message_start\<close> with the message skeleton (no content yet), then for every content block,
  at the next index, \<^verbatim>\<open>content_block_start\<close> with the block's skeleton, its deltas and
  \<^verbatim>\<open>content_block_stop\<close>, then \<^verbatim>\<open>message_delta\<close> and \<^verbatim>\<open>message_stop\<close>. This is the reading of
  "valid order" that the completion of a non-streaming call is compared with; it is not
  taken from the source, which accepts any order.

  \<open>block_events i b ps\<close> are the events of the block \<open>b\<close> of the finished completion, streamed
  at index \<open>i\<close> in the pieces \<open>ps\<close>: a text block starts with the empty text and gets text
  deltas, a tool-use block starts with the empty object as input and gets JSON deltas.
\<close>

fun block_events :: "int \<Rightarrow> block \<Rightarrow> string list \<Rightarrow> chunk list" where
  "block_events i (TextBlock t) ps =
     ContentBlockStart i (TextBlock [])
     # map (\<lambda>p. ContentBlockDelta i (TextDelta p)) ps @ [ContentBlockStop i]"
| "block_events i (ToolUseBlock bid n inp) ps =
     ContentBlockStart i (ToolUseBlock bid n (JDict []))
     # map (\<lambda>p. ContentBlockDelta i (InputJsonDelta p)) ps @ [ContentBlockStop i]"
| "block_events i b ps = []"

text \<open>
  The pieces carry the content of the block: the pieces of a text block make up its text;
  the pieces of a tool-use block make up a JSON text of its input, or make up the empty
  string when the input is the empty object. Only text and tool-use blocks are streamed.
\<close>

fun streamed_as :: "(string \<Rightarrow> json option) \<Rightarrow> block \<Rightarrow> string list \<Rightarrow> bool" where
  "streamed_as loads (TextBlock t) ps = (concat ps = t)"
| "streamed_as loads (ToolUseBlock bid n inp) ps =
     (if concat ps = [] then inp = JDict [] else loads (concat ps) = Some inp)"
| "streamed_as loads b ps = False"

fun blocks_events :: "nat \<Rightarrow> block list \<Rightarrow> string list list \<Rightarrow> chunk list" where
  "blocks_events i (b # bs) (ps # pss) = block_events (int i) b ps @ blocks_events (Suc i) bs pss"
| "blocks_events i bs pss = []"

text \<open>
  The stream of the completion \<open>m\<close>, its blocks cut into the pieces \<open>pss\<close>; \<open>started\<close> is the
  output token count that the skeleton of \<^verbatim>\<open>message_start\<close> carries.
\<close>

definition stream_events :: "message \<Rightarrow> string list list \<Rightarrow> int \<Rightarrow> chunk list" where
  "stream_events m pss started =
     MessageStart
       (m\<lparr>content := [], stop_reason := None, stop_sequence := None,
          usage := (usage m)\<lparr>output_tokens := started\<rparr>\<rparr>)
     # blocks_events 0 (content m) pss
     @ [MessageDelta (stop_reason m) (stop_sequence m) (output_tokens (usage m)), MessageStop]"

section \<open>Properties of the canonicalization\<close>

lemma as_turn_step_acc:
  "as_turn_step h acc b = map_sum id ((@) acc) (as_turn_step h [] b)"
  by (cases b) (auto simp: as_turn_step_def split: json.splits option.splits)

lemma as_turn_loop_acc:
  "as_turn_loop h acc bs = map_sum id ((@) acc) (as_turn_loop h [] bs)"
proof (induction bs arbitrary: acc)
  case Nil
  show ?case by simp
next
  case (Cons b bs)
  show ?case
  proof (cases "as_turn_step h [] b")
    case (Inl e)
    then show ?thesis by (simp add: as_turn_step_acc [of h acc b])
  next
    case (Inr xs)
    then show ?thesis
      using Cons.IH [of "acc @ xs"] Cons.IH [of xs]
      by (cases "as_turn_loop h [] bs") (simp_all add: as_turn_step_acc [of h acc b])
  qed
qed

lemma as_turn_loop_append:
  "as_turn_loop h acc (xs @ ys) =
     (case as_turn_loop h acc xs of Inl e \<Rightarrow> Inl e | Inr acc' \<Rightarrow> as_turn_loop h acc' ys)"
  by (induction xs arbitrary: acc) (auto split: sum.splits)

lemma as_turn_step_skip:
  "block_type b \<noteq> ''text'' \<Longrightarrow> block_type b \<noteq> ''tool_use'' \<Longrightarrow> as_turn_step h acc b = Inr acc"
  by (simp add: as_turn_step_def)

lemma as_turn_step_length:
  "as_turn_step h acc b = Inr acc' \<Longrightarrow>
   length acc' =
     length acc + (if block_type b = ''text'' \<or> block_type b = ''tool_use'' then 1 else 0)"
  by (cases b) (auto simp: as_turn_step_def split: json.splits option.splits if_splits)

lemma as_turn_step_error:
  "as_turn_step h acc b = Inl e \<Longrightarrow> \<exists>m. e = ValueError m"
  by (cases b) (auto simp: as_turn_step_def split: json.splits option.splits if_splits)

lemma as_turn_loop_error:
  "as_turn_loop h acc bs = Inl e \<Longrightarrow> \<exists>m. e = ValueError m"
  by (induction bs arbitrary: acc) (auto split: sum.splits dest: as_turn_step_error)

lemma as_turn_loop_filter:
  "as_turn_loop h acc bs =
     as_turn_loop h acc (filter (\<lambda>b. block_type b = ''text'' \<or> block_type b = ''tool_use'') bs)"
proof (induction bs arbitrary: acc)
  case Nil
  show ?case by simp
next
  case (Cons b bs)
  show ?case
  proof (cases "block_type b = ''text'' \<or> block_type b = ''tool_use''")
    case True
    then show ?thesis using Cons.IH by (auto split: sum.splits)
  next
    case False
    then have "as_turn_step h acc b = Inr acc" by (simp add: as_turn_step_skip)
    with False show ?thesis using Cons.IH [of acc] by simp
  qed
qed

lemma as_turn_loop_length:
  "as_turn_loop h acc bs = Inr r \<Longrightarrow>
   length r =
     length acc +
     length (filter (\<lambda>b. block_type b = ''text'' \<or> block_type b = ''tool_use'') bs)"
proof (induction bs arbitrary: acc)
  case Nil
  then show ?case by simp
next
  case (Cons b bs)
  from Cons.prems obtain acc' where
    step: "as_turn_step h acc b = Inr acc'" and rest: "as_turn_loop h acc' bs = Inr r"
    by (auto split: sum.splits)
  from Cons.IH [OF rest] as_turn_step_length [OF step] show ?case by auto
qed

text \<open>
  C10. A \<^verbatim>\<open>ContentToolResult\<close> maps to a \<^verbatim>\<open>tool_result\<close> block whose \<^verbatim>\<open>tool_use_id\<close> is the
  item's identifier and whose \<^verbatim>\<open>is_error\<close> is true exactly when the item's error is set.
\<close>

theorem as_content_block_tool_result:
  "as_content_block get_final_value (ContentToolResult cid v err) =
     Inr (ToolResultBlock cid (get_final_value v err) (err \<noteq> None))
   \<and> block_type (ToolResultBlock cid (get_final_value v err) (err \<noteq> None)) = ''tool_result''"
  by simp

text \<open>
  C9. Canonicalization emits content only for \<^verbatim>\<open>text\<close> and \<^verbatim>\<open>tool_use\<close> blocks: the
  contents, and the error if there is one, are those of the completion with every other
  block removed; a turn that is returned has one content item for each \<^verbatim>\<open>text\<close> or
  \<^verbatim>\<open>tool_use\<close> block and the role assistant.
\<close>

theorem as_turn_text_and_tool_use_only:
  "map_sum id contents (as_turn c h) =
     map_sum id contents
       (as_turn
          (c\<lparr>content :=
               filter (\<lambda>b. block_type b = ''text'' \<or> block_type b = ''tool_use'') (content c)\<rparr>) h)
   \<and> (case as_turn c h of
         Inl e \<Rightarrow> True
       | Inr t \<Rightarrow>
           role t = ''assistant'' \<and>
           length (contents t) =
             length (filter (\<lambda>b. block_type b = ''text'' \<or> block_type b = ''tool_use'') (content c)))"
proof -
  let ?P = "\<lambda>b. block_type b = ''text'' \<or> block_type b = ''tool_use''"
  have same: "as_turn_loop h [] (content c) = as_turn_loop h [] (filter ?P (content c))"
    by (rule as_turn_loop_filter)
  have first: "map_sum id contents (as_turn c h) =
      map_sum id contents (as_turn (c\<lparr>content := filter ?P (content c)\<rparr>) h)"
    unfolding as_turn_def using same
    by (cases "as_turn_loop h [] (filter ?P (content c))") simp_all
  have second: "(case as_turn c h of
         Inl e \<Rightarrow> True
       | Inr t \<Rightarrow> role t = ''assistant'' \<and>
           length (contents t) = length (filter ?P (content c)))"
  proof (cases "as_turn_loop h [] (content c)")
    case (Inl e)
    then show ?thesis by (simp add: as_turn_def)
  next
    case (Inr r)
    from as_turn_loop_length [OF Inr] Inr show ?thesis by (simp add: as_turn_def)
  qed
  from first second show ?thesis by blast
qed

theorem as_turn_text_and_tool_use_only_witness:
  "map_sum id contents
     (as_turn \<lparr>msg_id = ''msg_1'', model = ''claude'',
        content = [TextBlock ''4'', ImageBlock ''image/png'' ''AAAA'',
                   ToolResultBlock ''call_1'' ''ok'' False,
                   ToolUseBlock ''call_2'' ''add'' (JDict [(''x'', JInt 1)])],
        stop_reason = Some ''end_turn'', stop_sequence = None,
        usage = \<lparr>input_tokens = 10, output_tokens = 3\<rparr>\<rparr> False) =
   Inr [ContentText ''4'', ContentToolRequest ''call_2'' ''add'' (JDict [(''x'', JInt 1)])]"
  using as_turn_text_and_tool_use_only
    [of "\<lparr>msg_id = ''msg_1'', model = ''claude'',
        content = [TextBlock ''4'', ImageBlock ''image/png'' ''AAAA'',
                   ToolResultBlock ''call_1'' ''ok'' False,
                   ToolUseBlock ''call_2'' ''add'' (JDict [(''x'', JInt 1)])],
        stop_reason = Some ''end_turn'', stop_sequence = None,
        usage = \<lparr>input_tokens = 10, output_tokens = 3\<rparr>\<rparr>" False]
  by (simp add: as_turn_def as_turn_step_def)

text \<open>
  C3. With \<^verbatim>\<open>has_data_model\<close> set, a \<^verbatim>\<open>tool_use\<close> block named \<^verbatim>\<open>_structured_tool_call\<close>
  anywhere in the completion: if its input is not a dictionary, or is a dictionary without
  the key \<^verbatim>\<open>data\<close>, the canonicalization raises \<^verbatim>\<open>ValueError\<close>; if the input has the key,
  then either a block before or after it makes the call raise, or the turn holds, between
  the contents of the blocks before and of the blocks after, \<^verbatim>\<open>ContentJson\<close> of exactly the
  value under \<^verbatim>\<open>data\<close>.
\<close>

theorem as_turn_structured_tool_call:
  assumes c: "content c = pre @ ToolUseBlock bid ''_structured_tool_call'' inp # post"
  shows "(case inp of
            JDict d \<Rightarrow>
              (case map_of d ''data'' of
                 None \<Rightarrow> (\<exists>m. as_turn c True = Inl (ValueError m))
               | Some v \<Rightarrow>
                   (case as_turn c True of
                      Inl e \<Rightarrow>
                        as_turn_loop True [] pre = Inl e \<or> as_turn_loop True [] post = Inl e
                    | Inr t \<Rightarrow>
                        (\<exists>xs ys. as_turn_loop True [] pre = Inr xs \<and>
                                 as_turn_loop True [] post = Inr ys \<and>
                                 contents t = xs @ ContentJson v # ys)))
          | _ \<Rightarrow> (\<exists>m. as_turn c True = Inl (ValueError m)))"
proof -
  let ?b = "ToolUseBlock bid ''_structured_tool_call'' inp"
  have loop: "as_turn_loop True [] (content c) =
      (case as_turn_loop True [] pre of
         Inl e \<Rightarrow> Inl e
       | Inr xs \<Rightarrow>
           (case as_turn_step True xs ?b of
              Inl e \<Rightarrow> Inl e
            | Inr xs' \<Rightarrow> as_turn_loop True xs' post))"
    by (simp add: c as_turn_loop_append split: sum.splits)
  have bad: "\<exists>m. as_turn c True = Inl (ValueError m)"
    if step: "\<And>xs. \<exists>e. as_turn_step True xs ?b = Inl e"
  proof (cases "as_turn_loop True [] pre")
    case (Inl e)
    with loop have "as_turn_loop True [] (content c) = Inl e" by simp
    with as_turn_loop_error [OF this] show ?thesis by (auto simp: as_turn_def)
  next
    case (Inr xs)
    from step [of xs] obtain e where e: "as_turn_step True xs ?b = Inl e" by blast
    with as_turn_step_error [OF e] loop Inr show ?thesis by (auto simp: as_turn_def)
  qed
  show ?thesis
  proof (cases inp)
    case (JDict d)
    show ?thesis
    proof (cases "map_of d ''data''")
      case None
      with JDict have "\<And>xs. \<exists>e. as_turn_step True xs ?b = Inl e"
        by (simp add: as_turn_step_def)
      from bad [OF this] JDict None show ?thesis by simp
    next
      case (Some v)
      with JDict have step: "\<And>xs. as_turn_step True xs ?b = Inr (xs @ [ContentJson v])"
        by (simp add: as_turn_step_def)
      show ?thesis
      proof (cases "as_turn_loop True [] pre")
        case (Inl e)
        with loop JDict Some show ?thesis by (simp add: as_turn_def)
      next
        case (Inr xs)
        note pre = this
        show ?thesis
        proof (cases "as_turn_loop True [] post")
          case (Inl e)
          with loop pre step as_turn_loop_acc [of True "xs @ [ContentJson v]" post] JDict Some
          show ?thesis by (simp add: as_turn_def)
        next
          case (Inr ys)
          with loop pre step as_turn_loop_acc [of True "xs @ [ContentJson v]" post] JDict Some
          show ?thesis by (simp add: as_turn_def)
        qed
      qed
    qed
  qed (use bad in \<open>simp_all add: as_turn_step_def\<close>)
qed

theorem as_turn_structured_tool_call_witness:
  "map_sum id contents
     (as_turn \<lparr>msg_id = ''msg_1'', model = ''claude'',
        content = [TextBlock ''ok'',
                   ToolUseBlock ''call_1'' ''_structured_tool_call''
                     (JDict [(''data'', JDict [(''x'', JInt 1)])])],
        stop_reason = Some ''tool_use'', stop_sequence = None,
        usage = \<lparr>input_tokens = 10, output_tokens = 3\<rparr>\<rparr> True) =
   Inr [ContentText ''ok'', ContentJson (JDict [(''x'', JInt 1)])]
   \<and> (\<exists>m. as_turn \<lparr>msg_id = ''msg_1'', model = ''claude'',
        content = [TextBlock ''ok'', ToolUseBlock ''call_1'' ''_structured_tool_call'' (JDict [])],
        stop_reason = Some ''tool_use'', stop_sequence = None,
        usage = \<lparr>input_tokens = 10, output_tokens = 3\<rparr>\<rparr> True = Inl (ValueError m))"
  using as_turn_structured_tool_call
    [of "\<lparr>msg_id = ''msg_1'', model = ''claude'',
        content = [TextBlock ''ok'',
                   ToolUseBlock ''call_1'' ''_structured_tool_call''
                     (JDict [(''data'', JDict [(''x'', JInt 1)])])],
        stop_reason = Some ''tool_use'', stop_sequence = None,
        usage = \<lparr>input_tokens = 10, output_tokens = 3\<rparr>\<rparr>"
       "[TextBlock ''ok'']" "''call_1''" "JDict [(''data'', JDict [(''x'', JInt 1)])]" "[]"]
    as_turn_structured_tool_call
    [of "\<lparr>msg_id = ''msg_1'', model = ''claude'',
        content = [TextBlock ''ok'', ToolUseBlock ''call_1'' ''_structured_tool_call'' (JDict [])],
        stop_reason = Some ''tool_use'', stop_sequence = None,
        usage = \<lparr>input_tokens = 10, output_tokens = 3\<rparr>\<rparr>"
       "[TextBlock ''ok'']" "''call_1''" "JDict []" "[]"]
  by (simp add: as_turn_def as_turn_step_def)

section \<open>Properties of the streaming merge\<close>

lemma py_index_bound: "py_index xs i = Some k \<Longrightarrow> k < length xs"
  by (auto simp: py_index_def split: if_splits)

text \<open>
  C8. For an accumulator and a \<^verbatim>\<open>content_block_stop\<close> chunk whose index reads a content item
  (and \<^verbatim>\<open>json.loads\<close> reading \<^verbatim>\<open>{}\<close> as the empty object): a \<^verbatim>\<open>tool_use\<close> block whose input is
  still a string gets the parsed input, the empty string giving the empty object; the call
  raises exactly when the item is such a block and its non-empty string is not valid JSON;
  any other item leaves the accumulator unchanged.
\<close>

theorem stream_merge_chunks_content_block_stop:
  assumes idx: "py_index (content c) i = Some k"
    and empty: "loads ''{}'' = Some (JDict [])"
  shows "k < length (content c)
    \<and> stream_merge_chunks loads (Some c) (ContentBlockStop i) =
      (case content c ! k of
         ToolUseBlock bid n (JStr s) \<Rightarrow>
           (if s = [] then Inr (Some (c\<lparr>content := (content c)[k := ToolUseBlock bid n (JDict [])]\<rparr>))
            else
              (case loads s of
                 None \<Rightarrow> Inl (ValueError ''Invalid JSON input'')
               | Some v \<Rightarrow> Inr (Some (c\<lparr>content := (content c)[k := ToolUseBlock bid n v]\<rparr>))))
       | _ \<Rightarrow> Inr (Some c))
    \<and> (isl (stream_merge_chunks loads (Some c) (ContentBlockStop i)) \<longleftrightarrow>
         (\<exists>bid n s. content c ! k = ToolUseBlock bid n (JStr s) \<and> s \<noteq> [] \<and> loads s = None))"
proof -
  have unchanged: "c\<lparr>content := (content c)[k := content c ! k]\<rparr> = c" by simp
  show ?thesis
  proof (cases "content c ! k")
    case (ToolUseBlock bid n inp)
    show ?thesis
    proof (cases inp)
      case (JStr s)
      with ToolUseBlock idx empty py_index_bound [OF idx] show ?thesis
        by (cases "loads s") (auto simp: merge_stop_def)
    qed (use ToolUseBlock idx py_index_bound [OF idx] unchanged in \<open>simp_all add: merge_stop_def\<close>)
  qed (use idx py_index_bound [OF idx] unchanged in \<open>simp_all add: merge_stop_def\<close>)
qed

theorem stream_merge_chunks_content_block_stop_witness:
  "stream_merge_chunks (\<lambda>s. if s = ''{}'' then Some (JDict []) else if s = ''[1]'' then Some (JList [JInt 1]) else None)
     (Some \<lparr>msg_id = ''msg_1'', model = ''claude'',
        content = [TextBlock ''hi'', ToolUseBlock ''call_1'' ''add'' (JStr ''[1]'')],
        stop_reason = None, stop_sequence = None,
        usage = \<lparr>input_tokens = 10, output_tokens = 1\<rparr>\<rparr>) (ContentBlockStop 1) =
   Inr (Some \<lparr>msg_id = ''msg_1'', model = ''claude'',
        content = [TextBlock ''hi'', ToolUseBlock ''call_1'' ''add'' (JList [JInt 1])],
        stop_reason = None, stop_sequence = None,
        usage = \<lparr>input_tokens = 10, output_tokens = 1\<rparr>\<rparr>)"
proof -
  let ?loads = "\<lambda>s. if s = ''{}'' then Some (JDict []) else if s = ''[1]'' then Some (JList [JInt 1]) else None"
  let ?c = "\<lparr>msg_id = ''msg_1'', model = ''claude'',
        content = [TextBlock ''hi'', ToolUseBlock ''call_1'' ''add'' (JStr ''[1]'')],
        stop_reason = None, stop_sequence = None,
        usage = \<lparr>input_tokens = 10, output_tokens = 1\<rparr>\<rparr>"
  have idx: "py_index (content ?c) 1 = Some 1" by (simp add: py_index_def)
  have empty: "?loads ''{}'' = Some (JDict [])" by simp
  from stream_merge_chunks_content_block_stop [where c = ?c and i = 1 and k = 1 and loads = ?loads]
    idx empty
  show ?thesis by simp
qed

section \<open>Properties of the request construction\<close>

lemma as_message_params_loop_unknown_role:
  "\<exists>t\<in>set turns. role t \<notin> {''system'', ''user'', ''assistant''} \<Longrightarrow>
   isl (as_message_params_loop gfv acc turns)"
  by (induction turns arbitrary: acc) (auto split: sum.splits)

lemma as_message_params_loop_bad_content:
  "\<exists>t\<in>set turns. role t \<noteq> ''system'' \<and> isl (as_content_blocks gfv (contents t)) \<Longrightarrow>
   isl (as_message_params_loop gfv acc turns)"
  by (induction turns arbitrary: acc) (auto split: sum.splits)

lemma as_message_params_loop_ok:
  "\<forall>t\<in>set turns. role t \<in> {''system'', ''user'', ''assistant''} \<Longrightarrow>
   \<forall>t\<in>set turns. role t \<noteq> ''system'' \<longrightarrow> \<not> isl (as_content_blocks gfv (contents t)) \<Longrightarrow>
   as_message_params_loop gfv acc turns =
     Inr (acc @ map (\<lambda>t. \<lparr>mp_role = role t, mp_content = projr (as_content_blocks gfv (contents t))\<rparr>)
                  (filter (\<lambda>t. role t \<noteq> ''system'') turns))"
  by (induction turns arbitrary: acc) (auto split: sum.splits)

text \<open>
  C7, as amended. A turn whose role is not system, user or assistant makes
  \<^verbatim>\<open>_as_message_params\<close> raise; otherwise, unless a content item of a turn cannot be mapped,
  the messages are those of the turns that are not system turns, in order, each with the
  turn's role unchanged. System turns are passed over wherever they stand.
\<close>

theorem as_message_params_roles:
  "(if \<exists>t\<in>set turns. role t \<notin> {''system'', ''user'', ''assistant''} then
      isl (as_message_params gfv turns)
    else if \<exists>t\<in>set turns. role t \<noteq> ''system'' \<and> isl (as_content_blocks gfv (contents t)) then
      isl (as_message_params gfv turns)
    else
      as_message_params gfv turns =
        Inr (map (\<lambda>t. \<lparr>mp_role = role t,
                       mp_content = projr (as_content_blocks gfv (contents t))\<rparr>)
               (filter (\<lambda>t. role t \<noteq> ''system'') turns)))"
  unfolding as_message_params_def
  using as_message_params_loop_unknown_role [of turns gfv "[]"]
    as_message_params_loop_bad_content [of turns gfv "[]"]
    as_message_params_loop_ok [of turns gfv "[]"]
  by auto

theorem as_message_params_roles_witness:
  "as_message_params (\<lambda>v e. [])
     [\<lparr>role = ''system'', contents = [ContentText ''be terse''], json = None, tokens = None\<rparr>,
      \<lparr>role = ''user'', contents = [ContentText ''2+2?''], json = None, tokens = None\<rparr>,
      \<lparr>role = ''assistant'', contents = [ContentText ''4''], json = None, tokens = None\<rparr>] =
   Inr [\<lparr>mp_role = ''user'', mp_content = [TextBlock ''2+2?'']\<rparr>,
        \<lparr>mp_role = ''assistant'', mp_content = [TextBlock ''4'']\<rparr>]
   \<and> isl (as_message_params (\<lambda>v e. [])
     [\<lparr>role = ''user'', contents = [ContentText ''2+2?''], json = None, tokens = None\<rparr>,
      \<lparr>role = ''tool'', contents = [ContentText ''4''], json = None, tokens = None\<rparr>])"
  using as_message_params_roles
    [of "[\<lparr>role = ''system'', contents = [ContentText ''be terse''], json = None, tokens = None\<rparr>,
      \<lparr>role = ''user'', contents = [ContentText ''2+2?''], json = None, tokens = None\<rparr>,
      \<lparr>role = ''assistant'', contents = [ContentText ''4''], json = None, tokens = None\<rparr>]"
     "\<lambda>v e. []"]
    as_message_params_roles
    [of "[\<lparr>role = ''user'', contents = [ContentText ''2+2?''], json = None, tokens = None\<rparr>,
      \<lparr>role = ''tool'', contents = [ContentText ''4''], json = None, tokens = None\<rparr>]"
     "\<lambda>v e. []"]
  by simp

text \<open>
  The claim C7 as stated fails: a system turn that is not the leading one raises nothing,
  it is passed over.
\<close>

theorem as_message_params_system_counterexample:
  "as_message_params (\<lambda>v e. [])
     [\<lparr>role = ''user'', contents = [ContentText ''hi''], json = None, tokens = None\<rparr>,
      \<lparr>role = ''system'', contents = [ContentText ''be terse''], json = None, tokens = None\<rparr>] =
   Inr [\<lparr>mp_role = ''user'', mp_content = [TextBlock ''hi'']\<rparr>]"
  by (simp add: as_message_params_def)

lemma structured_tool_call_schema:
  "anthropic_tool_schema (tool_schema (structured_tool_call s)) =
     Inr \<lparr>tp_name = ''_structured_tool_call'',
          tp_input_schema = [(''type'', JStr ''object''), (''properties'', JDict [(''data'', s)])],
          tp_description = Some ''Extract structured data''\<rparr>"
  by (simp add: anthropic_tool_schema_def structured_tool_call_def)

lemma chat_perform_args_cases:
  "chat_perform_args self text_of gfv stream turns tools dm kwargs =
     (case anthropic_tool_schemas (map snd tools) of
        Inl e \<Rightarrow> ([], Inl e)
      | Inr schemas \<Rightarrow>
          (case as_message_params gfv turns of
             Inl e \<Rightarrow>
               (if dm \<noteq> None \<and> stream then
                  [''Anthropic does not support structured data extraction in streaming mode.'']
                else [], Inl e)
           | Inr ms \<Rightarrow>
               (if dm \<noteq> None \<and> stream then
                  [''Anthropic does not support structured data extraction in streaming mode.'']
                else [],
                Inr (request_args self text_of (stream \<and> dm = None) ms
                       (case dm of
                          None \<Rightarrow> schemas
                        | Some s \<Rightarrow> schemas @ [projr (anthropic_tool_schema (tool_schema (structured_tool_call s)))])
                       (map_option structured_tool_call dm) turns kwargs))))"
proof (cases "anthropic_tool_schemas (map snd tools)")
  case (Inl e)
  then show ?thesis by (simp add: chat_perform_args_def)
next
  case schemas: (Inr schemas)
  show ?thesis
  proof (cases dm)
    case None
    with schemas show ?thesis
      by (cases "as_message_params gfv turns") (simp_all add: chat_perform_args_def)
  next
    case (Some s)
    with schemas show ?thesis
      by (cases "as_message_params gfv turns")
        (simp_all add: chat_perform_args_def structured_tool_call_schema)
  qed
qed


lemma request_args_override:
  assumes "kwargs_or_empty kwargs k = Some v" and "k \<noteq> ''tool_choice'' \<or> t = None"
  shows "request_args self text_of stream ms schemas t turns kwargs k = Some v"
proof (cases t)
  case None
  with assms(1) show ?thesis
    by (cases "k = ''system''") (simp_all add: request_args_def Let_def map_add_def)
next
  case (Some tl)
  with assms have "k \<noteq> ''tool_choice''" by simp
  with Some assms(1) show ?thesis
    by (cases "k = ''system''") (simp_all add: request_args_def Let_def map_add_def)
qed

lemma request_args_tool_choice:
  "request_args self text_of stream ms schemas (Some t) turns kwargs ''tool_choice'' =
     Some (AToolChoice ''tool'' (tool_name t))"
  by (simp add: request_args_def Let_def)

lemma request_args_stream:
  "kwargs_or_empty kwargs ''stream'' = None \<Longrightarrow>
   request_args self text_of stream ms schemas t turns kwargs ''stream'' = Some (ABool stream)"
  by (cases t) (simp_all add: request_args_def Let_def map_add_def)

lemma request_args_messages:
  "kwargs_or_empty kwargs ''messages'' = None \<Longrightarrow>
   request_args self text_of stream ms schemas t turns kwargs ''messages'' = Some (AMessages ms)"
  by (cases t) (simp_all add: request_args_def Let_def map_add_def)

lemma request_args_system:
  "kwargs_or_empty kwargs ''system'' = None \<Longrightarrow>
   request_args self text_of stream ms schemas t (tn # turns) kwargs ''system'' =
     (if role tn = ''system'' then Some (AStr (text_of tn)) else None)"
  by (cases t) (simp_all add: request_args_def Let_def map_add_def)


lemma chat_perform_args_req:
  assumes "snd (chat_perform_args self text_of gfv stream turns tools dm kwargs) = Inr req"
  shows "\<exists>ms schemas.
      as_message_params gfv turns = Inr ms \<and>
      fst (chat_perform_args self text_of gfv stream turns tools dm kwargs) =
        (if dm \<noteq> None \<and> stream then
           [''Anthropic does not support structured data extraction in streaming mode.'']
         else []) \<and>
      req = request_args self text_of (stream \<and> dm = None) ms schemas
              (map_option structured_tool_call dm) turns kwargs"
proof (cases "anthropic_tool_schemas (map snd tools)")
  case (Inl e)
  with assms show ?thesis by (simp add: chat_perform_args_cases)
next
  case schemas: (Inr schemas)
  show ?thesis
  proof (cases "as_message_params gfv turns")
    case (Inl e)
    with schemas assms show ?thesis by (simp add: chat_perform_args_cases)
  next
    case (Inr ms)
    with schemas assms show ?thesis by (auto simp add: chat_perform_args_cases)
  qed
qed

lemma as_message_params_system_head:
  "role t = ''system'' \<Longrightarrow> as_message_params gfv (t # ts) = as_message_params gfv ts"
  by (simp add: as_message_params_def)

text \<open>
  C6. In every request that is built, an entry of the caller's \<^verbatim>\<open>kwargs\<close> is the request's
  entry under that key, whatever the adapter derives for it (stream flag, messages, model,
  token budget, tools, system prompt), except \<^verbatim>\<open>tool_choice\<close> when a data model is requested:
  then \<^verbatim>\<open>tool_choice\<close> is the forced choice of the tool \<^verbatim>\<open>_structured_tool_call\<close>.
\<close>

theorem chat_perform_args_overrides:
  assumes "snd (chat_perform_args self text_of gfv stream turns tools dm kwargs) = Inr req"
  shows "(kwargs_or_empty kwargs k = Some v \<and> (k \<noteq> ''tool_choice'' \<or> dm = None) \<longrightarrow>
            req k = Some v)
       \<and> (dm \<noteq> None \<longrightarrow>
            req ''tool_choice'' = Some (AToolChoice ''tool'' ''_structured_tool_call''))"
proof -
  from chat_perform_args_req [OF assms] obtain ms schemas where
    req: "req = request_args self text_of (stream \<and> dm = None) ms schemas
                  (map_option structured_tool_call dm) turns kwargs"
    by blast
  have "req k = Some v" if "kwargs_or_empty kwargs k = Some v" "k \<noteq> ''tool_choice'' \<or> dm = None"
    unfolding req using that by (intro request_args_override) auto
  moreover have "req ''tool_choice'' = Some (AToolChoice ''tool'' ''_structured_tool_call'')"
    if "dm \<noteq> None"
    using that unfolding req
    by (auto simp: request_args_tool_choice structured_tool_call_def)
  ultimately show ?thesis by blast
qed

theorem chat_perform_args_overrides_witness:
  "(case snd (chat_perform_args \<lparr>self_model = ''claude-3-5-sonnet-latest'', self_max_tokens = 4096\<rparr>
        (\<lambda>t. concat (map (\<lambda>c. case c of ContentText s \<Rightarrow> s | _ \<Rightarrow> []) (contents t))) (\<lambda>v e. []) False
        [\<lparr>role = ''user'', contents = [ContentText ''2+2?''], json = None, tokens = None\<rparr>] [] (Some (JDict []))
        (Some [''model'' \<mapsto> AStr ''claude-3-opus'', ''tool_choice'' \<mapsto> AToolChoice ''auto'' []])) of
      Inl e \<Rightarrow> False
    | Inr req \<Rightarrow>
        req ''model'' = Some (AStr ''claude-3-opus'') \<and>
        req ''tool_choice'' = Some (AToolChoice ''tool'' ''_structured_tool_call''))"
proof -
  let ?kw = "Some [''model'' \<mapsto> AStr ''claude-3-opus'', ''tool_choice'' \<mapsto> AToolChoice ''auto'' []]"
  let ?r = "snd (chat_perform_args \<lparr>self_model = ''claude-3-5-sonnet-latest'', self_max_tokens = 4096\<rparr>
        (\<lambda>t. concat (map (\<lambda>c. case c of ContentText s \<Rightarrow> s | _ \<Rightarrow> []) (contents t))) (\<lambda>v e. []) False
        [\<lparr>role = ''user'', contents = [ContentText ''2+2?''], json = None, tokens = None\<rparr>] [] (Some (JDict [])) ?kw)"
  obtain req where e: "?r = Inr req"
    by (simp add: chat_perform_args_cases as_message_params_def)
  have kw: "kwargs_or_empty ?kw ''model'' = Some (AStr ''claude-3-opus'')"
    by (simp add: kwargs_or_empty_def)
  from chat_perform_args_overrides [OF e, of "''model''" "AStr ''claude-3-opus''"] kw e
  show ?thesis by simp
qed

text \<open>
  C4, as amended. A request built with a data model and \<^verbatim>\<open>stream=True\<close> comes with exactly
  one warning and forces the tool choice \<^verbatim>\<open>_structured_tool_call\<close>; its stream flag is false
  unless the caller's \<^verbatim>\<open>kwargs\<close> have an entry \<^verbatim>\<open>stream\<close>, which is then the request's.
\<close>

theorem chat_perform_args_data_model_stream:
  assumes "chat_perform_args self text_of gfv True turns tools (Some s) kwargs = (ws, Inr req)"
  shows "ws = [''Anthropic does not support structured data extraction in streaming mode.'']
       \<and> req ''tool_choice'' = Some (AToolChoice ''tool'' ''_structured_tool_call'')
       \<and> req ''stream'' =
           (case kwargs_or_empty kwargs ''stream'' of
              None \<Rightarrow> Some (ABool False)
            | Some v \<Rightarrow> Some v)"
proof -
  from assms have snd: "snd (chat_perform_args self text_of gfv True turns tools (Some s) kwargs) = Inr req"
    and fst: "fst (chat_perform_args self text_of gfv True turns tools (Some s) kwargs) = ws"
    by simp_all
  from chat_perform_args_req [OF snd] fst obtain ms schemas where
    ws: "ws = [''Anthropic does not support structured data extraction in streaming mode.'']" and
    req: "req = request_args self text_of False ms schemas
                  (Some (structured_tool_call s)) turns kwargs"
    by auto
  have choice: "req ''tool_choice'' = Some (AToolChoice ''tool'' ''_structured_tool_call'')"
    unfolding req by (simp add: request_args_tool_choice structured_tool_call_def)
  have stream: "req ''stream'' =
      (case kwargs_or_empty kwargs ''stream'' of None \<Rightarrow> Some (ABool False) | Some v \<Rightarrow> Some v)"
  proof (cases "kwargs_or_empty kwargs ''stream''")
    case None
    then show ?thesis unfolding req by (simp add: request_args_stream)
  next
    case (Some v)
    then show ?thesis unfolding req by (simp add: request_args_override)
  qed
  from ws choice stream show ?thesis by simp
qed

theorem chat_perform_args_data_model_stream_witness:
  "(case chat_perform_args \<lparr>self_model = ''claude-3-5-sonnet-latest'', self_max_tokens = 4096\<rparr>
        (\<lambda>t. concat (map (\<lambda>c. case c of ContentText s \<Rightarrow> s | _ \<Rightarrow> []) (contents t))) (\<lambda>v e. []) True
        [\<lparr>role = ''user'', contents = [ContentText ''2+2?''], json = None, tokens = None\<rparr>] [] (Some (JDict [])) None of
      (ws, Inl e) \<Rightarrow> False
    | (ws, Inr req) \<Rightarrow>
        ws = [''Anthropic does not support structured data extraction in streaming mode.''] \<and>
        req ''tool_choice'' = Some (AToolChoice ''tool'' ''_structured_tool_call'') \<and>
        req ''stream'' = Some (ABool False))"
proof -
  let ?r = "chat_perform_args \<lparr>self_model = ''claude-3-5-sonnet-latest'', self_max_tokens = 4096\<rparr>
        (\<lambda>t. concat (map (\<lambda>c. case c of ContentText s \<Rightarrow> s | _ \<Rightarrow> []) (contents t))) (\<lambda>v e. []) True
        [\<lparr>role = ''user'', contents = [ContentText ''2+2?''], json = None, tokens = None\<rparr>] [] (Some (JDict [])) None"
  obtain ws req where e: "?r = (ws, Inr req)"
    by (simp add: chat_perform_args_cases as_message_params_def)
  from chat_perform_args_data_model_stream [OF e] e
  show ?thesis by (simp add: kwargs_or_empty_def)
qed

text \<open>
  The claim C4 as stated fails: with a data model and \<^verbatim>\<open>stream=True\<close>, a caller's entry
  \<^verbatim>\<open>stream\<close> is the stream flag of the request, here true.
\<close>

theorem chat_perform_args_stream_counterexample:
  "(case chat_perform_args \<lparr>self_model = ''claude-3-5-sonnet-latest'', self_max_tokens = 4096\<rparr>
        (\<lambda>t. concat (map (\<lambda>c. case c of ContentText s \<Rightarrow> s | _ \<Rightarrow> []) (contents t))) (\<lambda>v e. []) True
        [\<lparr>role = ''user'', contents = [ContentText ''2+2?''], json = None, tokens = None\<rparr>] [] (Some (JDict [])) (Some [''stream'' \<mapsto> ABool True]) of
      (ws, Inl e) \<Rightarrow> False
    | (ws, Inr req) \<Rightarrow> req ''stream'' = Some (ABool True))"
  by (simp add: chat_perform_args_cases as_message_params_def request_args_def
      kwargs_or_empty_def structured_tool_call_def)

lemma as_message_params_loop_no_system:
  "as_message_params_loop gfv acc ts = Inr ms \<Longrightarrow>
   list_all (\<lambda>m. mp_role m \<noteq> ''system'') acc \<Longrightarrow>
   list_all (\<lambda>m. mp_role m \<noteq> ''system'') ms"
proof (induction ts arbitrary: acc)
  case Nil
  then show ?case by simp
next
  case (Cons t ts)
  show ?case
  proof (cases "role t = ''system''")
    case True
    with Cons.prems Cons.IH [of acc] show ?thesis by simp
  next
    case False
    with Cons.prems obtain blocks where
      known: "role t = ''user'' \<or> role t = ''assistant''" and
      rest: "as_message_params_loop gfv
               (acc @ [\<lparr>mp_role = (if role t = ''user'' then ''user'' else ''assistant''),
                        mp_content = blocks\<rparr>]) ts = Inr ms"
      by (auto split: if_splits sum.splits)
    from Cons.IH [OF rest] Cons.prems(2) show ?thesis by simp
  qed
qed

text \<open>
  C5, as amended. For a turn list that begins with a system turn: the call raises exactly
  what it raises without that turn. In a request that is built, when the caller's \<^verbatim>\<open>kwargs\<close>
  have no entry \<^verbatim>\<open>messages\<close>, the message list is the list mapped from the turns after the
  system turn and holds no message of role system; when they have one, the message list is
  the caller's entry, whatever it holds. The system field is the caller's \<^verbatim>\<open>system\<close> entry if
  there is one and otherwise the text of the system turn.
\<close>

theorem chat_perform_args_system_turn:
  assumes sys: "role t = ''system''"
  shows "(case snd (chat_perform_args self text_of gfv stream (t # ts) tools dm kwargs) of
            Inl e \<Rightarrow> snd (chat_perform_args self text_of gfv stream ts tools dm kwargs) = Inl e
          | Inr req \<Rightarrow>
              (case kwargs_or_empty kwargs ''messages'' of
                 None \<Rightarrow> (\<exists>ms. as_message_params gfv ts = Inr ms \<and>
                                list_all (\<lambda>m. mp_role m \<noteq> ''system'') ms \<and>
                                req ''messages'' = Some (AMessages ms))
               | Some v \<Rightarrow> req ''messages'' = Some v)
              \<and> req ''system'' =
                  (case kwargs_or_empty kwargs ''system'' of
                     None \<Rightarrow> Some (AStr (text_of t))
                   | Some v \<Rightarrow> Some v))"
proof (cases "snd (chat_perform_args self text_of gfv stream (t # ts) tools dm kwargs)")
  case (Inl e)
  then have "snd (chat_perform_args self text_of gfv stream ts tools dm kwargs) = Inl e"
    by (simp add: chat_perform_args_cases as_message_params_system_head [OF sys]
        split: sum.splits)
  with Inl show ?thesis by simp
next
  case (Inr req)
  from chat_perform_args_req [OF Inr] obtain ms schemas where
    ms: "as_message_params gfv ts = Inr ms" and
    req: "req = request_args self text_of (stream \<and> dm = None) ms schemas
                  (map_option structured_tool_call dm) (t # ts) kwargs"
    by (auto simp: as_message_params_system_head [OF sys])
  from ms have no_system: "list_all (\<lambda>m. mp_role m \<noteq> ''system'') ms"
    unfolding as_message_params_def
    by (rule as_message_params_loop_no_system) simp
  have messages: "(case kwargs_or_empty kwargs ''messages'' of
                 None \<Rightarrow> (\<exists>ms. as_message_params gfv ts = Inr ms \<and>
                                list_all (\<lambda>m. mp_role m \<noteq> ''system'') ms \<and>
                                req ''messages'' = Some (AMessages ms))
               | Some v \<Rightarrow> req ''messages'' = Some v)"
  proof (cases "kwargs_or_empty kwargs ''messages''")
    case None
    with ms no_system show ?thesis unfolding req by (simp add: request_args_messages)
  next
    case (Some v)
    then show ?thesis unfolding req by (simp add: request_args_override)
  qed
  have system: "req ''system'' =
      (case kwargs_or_empty kwargs ''system'' of None \<Rightarrow> Some (AStr (text_of t)) | Some v \<Rightarrow> Some v)"
  proof (cases "kwargs_or_empty kwargs ''system''")
    case None
    with sys show ?thesis unfolding req by (simp add: request_args_system)
  next
    case (Some v)
    then show ?thesis unfolding req by (simp add: request_args_override)
  qed
  from Inr messages system show ?thesis by simp
qed

theorem chat_perform_args_system_turn_witness:
  "(case snd (chat_perform_args \<lparr>self_model = ''claude-3-5-sonnet-latest'', self_max_tokens = 4096\<rparr>
        (\<lambda>t. concat (map (\<lambda>c. case c of ContentText s \<Rightarrow> s | _ \<Rightarrow> []) (contents t))) (\<lambda>v e. []) False
        [\<lparr>role = ''system'', contents = [ContentText ''be terse''], json = None, tokens = None\<rparr>,
         \<lparr>role = ''user'', contents = [ContentText ''2+2?''], json = None, tokens = None\<rparr>] [] None None) of
      Inl e \<Rightarrow> False
    | Inr req \<Rightarrow>
        req ''messages'' = Some (AMessages [\<lparr>mp_role = ''user'', mp_content = [TextBlock ''2+2?'']\<rparr>]) \<and>
        req ''system'' = Some (AStr ''be terse''))
   \<and> (case snd (chat_perform_args \<lparr>self_model = ''claude-3-5-sonnet-latest'', self_max_tokens = 4096\<rparr>
        (\<lambda>t. concat (map (\<lambda>c. case c of ContentText s \<Rightarrow> s | _ \<Rightarrow> []) (contents t))) (\<lambda>v e. []) False
        [\<lparr>role = ''system'', contents = [ContentText ''be terse''], json = None, tokens = None\<rparr>,
         \<lparr>role = ''user'', contents = [ContentText ''2+2?''], json = None, tokens = None\<rparr>] [] None
        (Some [''system'' \<mapsto> AStr ''be kind'',
               ''messages'' \<mapsto> AMessages [\<lparr>mp_role = ''user'', mp_content = [TextBlock ''3+3?'']\<rparr>]])) of
      Inl e \<Rightarrow> False
    | Inr req \<Rightarrow>
        req ''messages'' = Some (AMessages [\<lparr>mp_role = ''user'', mp_content = [TextBlock ''3+3?'']\<rparr>]) \<and>
        req ''system'' = Some (AStr ''be kind''))"
proof -
  let ?self = "\<lparr>self_model = ''claude-3-5-sonnet-latest'', self_max_tokens = 4096\<rparr>"
  let ?text = "\<lambda>t. concat (map (\<lambda>c. case c of ContentText s \<Rightarrow> s | _ \<Rightarrow> []) (contents t))"
  let ?gfv = "\<lambda>(v::json) (e::string option). ([]::string)"
  let ?t = "\<lparr>role = ''system'', contents = [ContentText ''be terse''], json = None, tokens = None\<rparr>"
  let ?u = "\<lparr>role = ''user'', contents = [ContentText ''2+2?''], json = None, tokens = None\<rparr>"
  let ?kw = "Some [''system'' \<mapsto> AStr ''be kind'',
               ''messages'' \<mapsto> AMessages [\<lparr>mp_role = ''user'', mp_content = [TextBlock ''3+3?'']\<rparr>]]"
  have sys: "role ?t = ''system''" by simp
  obtain req where e:
    "snd (chat_perform_args ?self ?text ?gfv False [?t, ?u] [] None None) = Inr req"
    by (simp add: chat_perform_args_cases as_message_params_def)
  obtain req' where e':
    "snd (chat_perform_args ?self ?text ?gfv False [?t, ?u] [] None ?kw) = Inr req'"
    by (simp add: chat_perform_args_cases as_message_params_def)
  from chat_perform_args_system_turn [OF sys, of ?self ?text ?gfv False "[?u]" "[]" None None] e
  have first: "req ''messages'' =
        Some (AMessages [\<lparr>mp_role = ''user'', mp_content = [TextBlock ''2+2?'']\<rparr>]) \<and>
      req ''system'' = Some (AStr ''be terse'')"
    by (simp add: kwargs_or_empty_def as_message_params_def)
  from chat_perform_args_system_turn [OF sys, of ?self ?text ?gfv False "[?u]" "[]" None ?kw] e'
  have second: "req' ''messages'' =
        Some (AMessages [\<lparr>mp_role = ''user'', mp_content = [TextBlock ''3+3?'']\<rparr>]) \<and>
      req' ''system'' = Some (AStr ''be kind'')"
    by (simp add: kwargs_or_empty_def)
  from first second e e' show ?thesis by simp
qed

text \<open>
  The claim C5 as stated fails: the caller's entry \<^verbatim>\<open>messages\<close> is the message list of the
  request, so a list that the caller supplies with the system turn in it stays there.
\<close>

theorem chat_perform_args_messages_counterexample:
  "(case snd (chat_perform_args \<lparr>self_model = ''claude-3-5-sonnet-latest'', self_max_tokens = 4096\<rparr>
        (\<lambda>t. concat (map (\<lambda>c. case c of ContentText s \<Rightarrow> s | _ \<Rightarrow> []) (contents t))) (\<lambda>v e. []) False
        [\<lparr>role = ''system'', contents = [ContentText ''be terse''], json = None, tokens = None\<rparr>,
         \<lparr>role = ''user'', contents = [ContentText ''2+2?''], json = None, tokens = None\<rparr>] [] None
        (Some [''messages'' \<mapsto>
                 AMessages [\<lparr>mp_role = ''system'', mp_content = [TextBlock ''be terse'']\<rparr>,
                            \<lparr>mp_role = ''user'', mp_content = [TextBlock ''2+2?'']\<rparr>]])) of
      Inl e \<Rightarrow> False
    | Inr req \<Rightarrow>
        req ''messages'' =
          Some (AMessages [\<lparr>mp_role = ''system'', mp_content = [TextBlock ''be terse'']\<rparr>,
                           \<lparr>mp_role = ''user'', mp_content = [TextBlock ''2+2?'']\<rparr>]))"
  by (simp add: chat_perform_args_cases as_message_params_def request_args_def
      kwargs_or_empty_def)

section \<open>Content to blocks and back\<close>

lemma round_trip_loop:
  assumes "list_all (\<lambda>c. case c of
               ContentImageRemote url \<Rightarrow> False
             | ContentToolRequest cid n a \<Rightarrow> \<not> (h \<and> n = ''_structured_tool_call'')
             | _ \<Rightarrow> True) cs"
  shows "\<exists>bs. as_content_blocks gfv cs = Inr bs \<and>
      as_turn_loop h [] bs =
        Inr (concat (map (\<lambda>c. case c of
               ContentText t \<Rightarrow> [ContentText t]
             | ContentJson v \<Rightarrow> [ContentText ''<structured data/>'']
             | ContentToolRequest cid n a \<Rightarrow> [ContentToolRequest cid n a]
             | _ \<Rightarrow> []) cs))"
  using assms
proof (induction cs)
  case Nil
  show ?case by simp
next
  case (Cons c cs)
  then obtain bs where bs: "as_content_blocks gfv cs = Inr bs"
    and loop: "as_turn_loop h [] bs =
        Inr (concat (map (\<lambda>c. case c of
               ContentText t \<Rightarrow> [ContentText t]
             | ContentJson v \<Rightarrow> [ContentText ''<structured data/>'']
             | ContentToolRequest cid n a \<Rightarrow> [ContentToolRequest cid n a]
             | _ \<Rightarrow> []) cs))"
    by auto
  from Cons.prems bs loop show ?case
    by (cases c)
      (auto simp: as_turn_step_def as_turn_loop_acc [of h "[x]" bs for x])
qed

text \<open>
  C2, as amended. For a content list without remote images (and, when \<^verbatim>\<open>has_data_model\<close> is
  set, without a tool request named \<^verbatim>\<open>_structured_tool_call\<close>), mapping every item with
  \<^verbatim>\<open>_as_content_block\<close> succeeds, and canonicalizing the blocks with \<^verbatim>\<open>_as_turn\<close> gives back, in
  order: every text item and every tool request unchanged (text; identifier, name and
  arguments), the placeholder text for every JSON item, and nothing for inline images and
  tool results.
\<close>

theorem content_round_trip:
  assumes "list_all (\<lambda>c. case c of
               ContentImageRemote url \<Rightarrow> False
             | ContentToolRequest cid n a \<Rightarrow> \<not> (h \<and> n = ''_structured_tool_call'')
             | _ \<Rightarrow> True) cs"
  shows "\<exists>bs. as_content_blocks gfv cs = Inr bs \<and>
      map_sum id contents (as_turn (m\<lparr>content := bs\<rparr>) h) =
        Inr (concat (map (\<lambda>c. case c of
               ContentText t \<Rightarrow> [ContentText t]
             | ContentJson v \<Rightarrow> [ContentText ''<structured data/>'']
             | ContentToolRequest cid n a \<Rightarrow> [ContentToolRequest cid n a]
             | _ \<Rightarrow> []) cs))"
proof -
  from round_trip_loop [OF assms, of gfv] obtain bs where
    "as_content_blocks gfv cs = Inr bs" and
    "as_turn_loop h [] bs =
        Inr (concat (map (\<lambda>c. case c of
               ContentText t \<Rightarrow> [ContentText t]
             | ContentJson v \<Rightarrow> [ContentText ''<structured data/>'']
             | ContentToolRequest cid n a \<Rightarrow> [ContentToolRequest cid n a]
             | _ \<Rightarrow> []) cs))"
    by blast
  then show ?thesis by (simp add: as_turn_def)
qed

theorem content_round_trip_witness:
  "(case as_content_blocks (\<lambda>v e. ''ok'')
       [ContentText ''hi'', ContentJson (JDict [(''x'', JInt 1)]),
        ContentImageInline ''image/png'' (Some ''AAAA''),
        ContentToolRequest ''call_1'' ''add'' (JDict [(''x'', JInt 1)]),
        ContentToolResult ''call_1'' (JStr ''ok'') None] of
      Inl e \<Rightarrow> False
    | Inr bs \<Rightarrow>
        map_sum id contents
          (as_turn \<lparr>msg_id = ''msg_1'', model = ''claude'', content = bs,
             stop_reason = None, stop_sequence = None,
             usage = \<lparr>input_tokens = 10, output_tokens = 3\<rparr>\<rparr> False) =
        Inr [ContentText ''hi'', ContentText ''<structured data/>'',
             ContentToolRequest ''call_1'' ''add'' (JDict [(''x'', JInt 1)])])"
proof -
  let ?cs = "[ContentText ''hi'', ContentJson (JDict [(''x'', JInt 1)]),
        ContentImageInline ''image/png'' (Some ''AAAA''),
        ContentToolRequest ''call_1'' ''add'' (JDict [(''x'', JInt 1)]),
        ContentToolResult ''call_1'' (JStr ''ok'') None]"
  have ok: "list_all (\<lambda>c. case c of
               ContentImageRemote url \<Rightarrow> False
             | ContentToolRequest cid n a \<Rightarrow> \<not> (False \<and> n = ''_structured_tool_call'')
             | _ \<Rightarrow> True) ?cs"
    by simp
  from content_round_trip [OF ok, of "\<lambda>v e. ''ok''"
      "\<lparr>msg_id = ''msg_1'', model = ''claude'', content = [],
             stop_reason = None, stop_sequence = None,
             usage = \<lparr>input_tokens = 10, output_tokens = 3\<rparr>\<rparr>"]
  show ?thesis by auto
qed

text \<open>
  The claim C2 as stated fails on tool results: the block keeps the identifier, and the
  canonicalization drops the block, so no item with the identifier comes back.
\<close>

theorem tool_result_round_trip_counterexample:
  "(case as_content_blocks (\<lambda>v e. ''ok'') [ContentToolResult ''call_1'' (JStr ''ok'') None] of
      Inl e \<Rightarrow> False
    | Inr bs \<Rightarrow>
        bs = [ToolResultBlock ''call_1'' ''ok'' False] \<and>
        map_sum id contents
          (as_turn \<lparr>msg_id = ''msg_1'', model = ''claude'', content = bs,
             stop_reason = None, stop_sequence = None,
             usage = \<lparr>input_tokens = 10, output_tokens = 3\<rparr>\<rparr> False) = Inr [])"
  by (simp add: as_turn_def as_turn_step_def)

section \<open>A streamed completion merges into the completion\<close>

lemma merge_all_append:
  "merge_all loads a (xs @ ys) =
     (case merge_all loads a xs of Inl e \<Rightarrow> Inl e | Inr a' \<Rightarrow> merge_all loads a' ys)"
  by (induction xs arbitrary: a) (auto split: sum.splits)

lemma py_index_last: "py_index (pre @ [b]) (int (length pre)) = Some (length pre)"
  by (simp add: py_index_def)

lemma text_deltas:
  "content c = pre @ [TextBlock t] \<Longrightarrow>
   merge_all loads (Some c) (map (\<lambda>p. ContentBlockDelta (int (length pre)) (TextDelta p)) ps) =
     Inr (Some (c\<lparr>content := pre @ [TextBlock (t @ concat ps)]\<rparr>))"
proof (induction ps arbitrary: c t)
  case Nil
  then show ?case by simp
next
  case (Cons p ps)
  let ?c = "c\<lparr>content := pre @ [TextBlock (t @ p)]\<rparr>"
  have step: "stream_merge_chunks loads (Some c) (ContentBlockDelta (int (length pre)) (TextDelta p)) =
      Inr (Some ?c)"
    using Cons.prems by (simp add: py_index_last)
  have "content ?c = pre @ [TextBlock (t @ p)]" by simp
  from Cons.IH [OF this] step show ?case by simp
qed

lemma json_deltas:
  "content c = pre @ [ToolUseBlock bid n (JStr s)] \<Longrightarrow>
   merge_all loads (Some c) (map (\<lambda>p. ContentBlockDelta (int (length pre)) (InputJsonDelta p)) ps) =
     Inr (Some (c\<lparr>content := pre @ [ToolUseBlock bid n (JStr (s @ concat ps))]\<rparr>))"
proof (induction ps arbitrary: c s)
  case Nil
  then show ?case by simp
next
  case (Cons p ps)
  let ?c = "c\<lparr>content := pre @ [ToolUseBlock bid n (JStr (s @ p))]\<rparr>"
  have step: "stream_merge_chunks loads (Some c)
      (ContentBlockDelta (int (length pre)) (InputJsonDelta p)) = Inr (Some ?c)"
    using Cons.prems by (simp add: py_index_last)
  have "content ?c = pre @ [ToolUseBlock bid n (JStr (s @ p))]" by simp
  from Cons.IH [OF this] step show ?case by simp
qed

lemma json_deltas_first:
  assumes c: "content c = pre @ [ToolUseBlock bid n (JDict [])]" and ps: "ps \<noteq> []"
  shows "merge_all loads (Some c)
      (map (\<lambda>p. ContentBlockDelta (int (length pre)) (InputJsonDelta p)) ps) =
     Inr (Some (c\<lparr>content := pre @ [ToolUseBlock bid n (JStr (concat ps))]\<rparr>))"
proof -
  from ps obtain p qs where pq: "ps = p # qs" by (cases ps) auto
  let ?c = "c\<lparr>content := pre @ [ToolUseBlock bid n (JStr p)]\<rparr>"
  have step: "stream_merge_chunks loads (Some c)
      (ContentBlockDelta (int (length pre)) (InputJsonDelta p)) = Inr (Some ?c)"
    using c by (simp add: py_index_last)
  have "content ?c = pre @ [ToolUseBlock bid n (JStr p)]" by simp
  from json_deltas [OF this, of loads qs] step pq show ?thesis by simp
qed

lemma block_events_merge:
  assumes ok: "streamed_as loads b ps" and empty: "loads ''{}'' = Some (JDict [])"
  shows "merge_all loads (Some c) (block_events (int (length (content c))) b ps) =
     Inr (Some (c\<lparr>content := content c @ [b]\<rparr>))"
proof (cases b)
  case (TextBlock t)
  let ?c1 = "c\<lparr>content := content c @ [TextBlock []]\<rparr>"
  have c1: "content ?c1 = content c @ [TextBlock []]" by simp
  from text_deltas [OF c1, of loads ps] ok TextBlock show ?thesis
    by (simp add: merge_all_append py_index_last merge_stop_def)
next
  case (ToolUseBlock bid n inp)
  let ?c1 = "c\<lparr>content := content c @ [ToolUseBlock bid n (JDict [])]\<rparr>"
  have c1: "content ?c1 = content c @ [ToolUseBlock bid n (JDict [])]" by simp
  show ?thesis
  proof (cases "ps = []")
    case True
    with ok ToolUseBlock show ?thesis
      by (simp add: py_index_last merge_stop_def)
  next
    case False
    from json_deltas_first [OF c1 False, of loads] ok ToolUseBlock empty show ?thesis
      by (simp add: merge_all_append py_index_last merge_stop_def)
  qed
qed (use ok in simp_all)

lemma blocks_events_merge:
  assumes "list_all2 (streamed_as loads) bs pss" and empty: "loads ''{}'' = Some (JDict [])"
  shows "merge_all loads (Some c) (blocks_events (length (content c)) bs pss) =
     Inr (Some (c\<lparr>content := content c @ bs\<rparr>))"
  using assms(1)
proof (induction bs pss arbitrary: c rule: list_all2_induct)
  case Nil
  show ?case by simp
next
  case (Cons b ps bs pss)
  let ?c = "c\<lparr>content := content c @ [b]\<rparr>"
  have len: "length (content ?c) = Suc (length (content c))" by simp
  from Cons.IH [of ?c] block_events_merge [OF Cons.hyps(1) empty, of c] show ?case
    by (simp add: merge_all_append)
qed

text \<open>
  C1. For every completion made of text and tool-use blocks and every way of cutting its
  blocks into pieces (with \<^verbatim>\<open>json.loads\<close> reading \<^verbatim>\<open>{}\<close> as the empty object), merging the
  events of its stream in order, from the empty accumulator, returns that completion;
  so \<^verbatim>\<open>stream_turn\<close> on the merged accumulator is \<^verbatim>\<open>value_turn\<close> on the completion, for the same
  \<^verbatim>\<open>has_data_model\<close>.
\<close>

theorem stream_merge_equals_completion:
  assumes "list_all2 (streamed_as loads) (content m) pss" and "loads ''{}'' = Some (JDict [])"
  shows "merge_all loads None (stream_events m pss started) = Inr (Some m)
    \<and> (\<exists>acc. merge_all loads None (stream_events m pss started) = Inr (Some acc) \<and>
             stream_turn acc h = value_turn m h)"
proof -
  let ?m0 = "m\<lparr>content := [], stop_reason := None, stop_sequence := None,
          usage := (usage m)\<lparr>output_tokens := started\<rparr>\<rparr>"
  have "merge_all loads (Some ?m0) (blocks_events (length (content ?m0)) (content m) pss) =
      Inr (Some (?m0\<lparr>content := content ?m0 @ content m\<rparr>))"
    by (rule blocks_events_merge [OF assms])
  then have "merge_all loads None (stream_events m pss started) = Inr (Some m)"
    by (simp add: stream_events_def merge_all_append)
  then show ?thesis by (simp add: stream_turn_def value_turn_def)
qed

theorem stream_merge_equals_completion_witness:
  "(case merge_all (\<lambda>s. if s = ''{}'' then Some (JDict []) else if s = ''[1]'' then Some (JList [JInt 1]) else None)
       None
       (stream_events
          \<lparr>msg_id = ''msg_1'', model = ''claude'',
        content = [TextBlock ''Hello'', ToolUseBlock ''call_1'' ''add'' (JList [JInt 1]),
                   ToolUseBlock ''call_2'' ''now'' (JDict [])],
        stop_reason = Some ''tool_use'', stop_sequence = None,
        usage = \<lparr>input_tokens = 10, output_tokens = 7\<rparr>\<rparr>
          [[''Hel'', ''lo''], [''[1'', '']''], ['''']] 1) of
      Inr (Some acc) \<Rightarrow>
        acc = \<lparr>msg_id = ''msg_1'', model = ''claude'',
        content = [TextBlock ''Hello'', ToolUseBlock ''call_1'' ''add'' (JList [JInt 1]),
                   ToolUseBlock ''call_2'' ''now'' (JDict [])],
        stop_reason = Some ''tool_use'', stop_sequence = None,
        usage = \<lparr>input_tokens = 10, output_tokens = 7\<rparr>\<rparr>
        \<and> stream_turn acc False =
            value_turn
              \<lparr>msg_id = ''msg_1'', model = ''claude'',
        content = [TextBlock ''Hello'', ToolUseBlock ''call_1'' ''add'' (JList [JInt 1]),
                   ToolUseBlock ''call_2'' ''now'' (JDict [])],
        stop_reason = Some ''tool_use'', stop_sequence = None,
        usage = \<lparr>input_tokens = 10, output_tokens = 7\<rparr>\<rparr> False
        \<and> map_sum id contents (stream_turn acc False) =
            Inr [ContentText ''Hello'', ContentToolRequest ''call_1'' ''add'' (JList [JInt 1]),
                 ContentToolRequest ''call_2'' ''now'' (JDict [])]
    | _ \<Rightarrow> False)"
proof -
  let ?loads = "(\<lambda>s. if s = ''{}'' then Some (JDict []) else if s = ''[1]'' then Some (JList [JInt 1]) else None)"
  let ?m = "\<lparr>msg_id = ''msg_1'', model = ''claude'',
        content = [TextBlock ''Hello'', ToolUseBlock ''call_1'' ''add'' (JList [JInt 1]),
                   ToolUseBlock ''call_2'' ''now'' (JDict [])],
        stop_reason = Some ''tool_use'', stop_sequence = None,
        usage = \<lparr>input_tokens = 10, output_tokens = 7\<rparr>\<rparr>"
  let ?pss = "[[''Hel'', ''lo''], [''[1'', '']''], ['''']]"
  have pieces: "list_all2 (streamed_as ?loads) (content ?m) ?pss" by simp
  have empty: "?loads ''{}'' = Some (JDict [])" by simp
  from stream_merge_equals_completion [where loads = ?loads and m = ?m and pss = ?pss
      and started = 1 and h = False] pieces empty
  have "merge_all ?loads None (stream_events ?m ?pss 1) = Inr (Some ?m)" by blast
  then show ?thesis
    by (simp add: stream_turn_def value_turn_def as_turn_def as_turn_step_def)
qed

end
